theory Spec2Isabelle
  imports Main
begin

section \<open>Tor2web GetTor routines (tor2web/utils/gettor.py)\<close>

text \<open>
  The module is Python 2 code. Byte strings are modelled as \<open>string\<close> (lists of 8-bit
  characters), lists as lists, exceptions as the left summand of a sum type.
\<close>

datatype error =
    IndexError
  | IOError
  | OSError
  | ValueError
  | InsecurePath
  | NetworkError
  | AttributeError

subsection \<open>String helpers of the Python runtime\<close>

definition apostrophe :: char where
  "apostrophe = CHR 0x27"

definition dquote :: char where
  "dquote = CHR 0x22"

definition newline :: char where
  "newline = CHR 0x0A"

text \<open>\<open>s.split(c)\<close> for a one-character separator: always at least one piece.\<close>

fun split_on :: "char \<Rightarrow> string \<Rightarrow> string list" where
  "split_on c [] = [[]]"
| "split_on c (x # xs) =
     (if x = c then [] # split_on c xs
      else (case split_on c xs of
              [] \<Rightarrow> [[x]]
            | p # ps \<Rightarrow> (x # p) # ps))"

text \<open>\<open>s.replace(c, "")\<close> for a one-character pattern.\<close>

definition remove_char :: "char \<Rightarrow> string \<Rightarrow> string" where
  "remove_char c s = filter (\<lambda>x. x \<noteq> c) s"

text \<open>\<open>str.lower()\<close> on a byte string: only \<open>A\<close>..\<open>Z\<close> change.\<close>

definition lower_char :: "char \<Rightarrow> char" where
  "lower_char c =
     (let n = (of_char c :: nat)
      in if 65 \<le> n \<and> n \<le> 90 then char_of (n + 32) else c)"

definition lower :: "string \<Rightarrow> string" where
  "lower s = map lower_char s"

subsection \<open>getBestLangMatch\<close>

text \<open>
  \<^verbatim>\<open>[l.split(';')[0] for l in accept_language.replace(" ", "").split(',')]\<close>
\<close>

definition parse_accept_language :: "string \<Rightarrow> string list" where
  "parse_accept_language accept_language =
     map (\<lambda>l. hd (split_on (CHR '';'') l))
         (split_on (CHR '','') (remove_char (CHR '' '') accept_language))"

text \<open>\<^verbatim>\<open>if '-' in lc: lc = lc.split('-')[0]\<close>\<close>

definition language_only :: "string \<Rightarrow> string" where
  "language_only lc =
     (if CHR ''-'' \<in> set lc then hd (split_on (CHR ''-'') lc) else lc)"

text \<open>
  The first and second inner loops:
  \<^verbatim>\<open>for l in supported_lcs: if lc.lower() == l.lower(): return l\<close>
\<close>

fun exact_loop :: "string \<Rightarrow> string list \<Rightarrow> string option" where
  "exact_loop lc [] = None"
| "exact_loop lc (l # ls) =
     (if lower lc = lower l then Some l else exact_loop lc ls)"

text \<open>
  The third inner loop:
  \<^verbatim>\<open>for l in supported_lcs: if lc.lower() == language_only(l).lower(): return l\<close>
\<close>

fun language_loop :: "string \<Rightarrow> string list \<Rightarrow> string option" where
  "language_loop lc [] = None"
| "language_loop lc (l # ls) =
     (if lower lc = lower (language_only l) then Some l else language_loop lc ls)"

text \<open>The outer loop over the parsed header, ending in the last resort.\<close>

fun requested_loop :: "string list \<Rightarrow> string list \<Rightarrow> string" where
  "requested_loop [] supported_lcs = ''en-US''"
| "requested_loop (lc # rest) supported_lcs =
     (case exact_loop lc supported_lcs of
        Some l \<Rightarrow> l
      | None \<Rightarrow>
          (let lc' = language_only lc
           in case exact_loop lc' supported_lcs of
                Some l \<Rightarrow> l
              | None \<Rightarrow>
                  (case language_loop lc' supported_lcs of
                     Some l \<Rightarrow> l
                   | None \<Rightarrow> requested_loop rest supported_lcs)))"

definition getBestLangMatch :: "string \<Rightarrow> string list \<Rightarrow> string" where
  "getBestLangMatch accept_language supported_lcs =
     requested_loop (parse_accept_language accept_language) supported_lcs"

subsection \<open>The resolution rule in the specification's words\<close>

text \<open>
  The primary subtag of a language tag is the part before its first hyphen; a tag
  matches case-insensitively when the lower-cased strings are equal.
\<close>

definition primary_subtag :: "string \<Rightarrow> string" where
  "primary_subtag t = takeWhile (\<lambda>c. c \<noteq> CHR ''-'') t"

definition same_tag :: "string \<Rightarrow> string \<Rightarrow> bool" where
  "same_tag a b = (lower a = lower b)"

text \<open>
  For one requested tag: an exact match, else the primary subtag as an exact match,
  else a supported tag whose primary subtag matches; in each case the first such
  supported tag.
\<close>

definition resolve_tag :: "string \<Rightarrow> string list \<Rightarrow> string option" where
  "resolve_tag t supported =
     (case find (same_tag t) supported of
        Some l \<Rightarrow> Some l
      | None \<Rightarrow>
          (case find (same_tag (primary_subtag t)) supported of
             Some l \<Rightarrow> Some l
           | None \<Rightarrow>
               find (\<lambda>l. same_tag (primary_subtag t) (primary_subtag l)) supported))"

text \<open>
  The requested tags are the comma-separated items of the header, without spaces and
  without their parameters (what follows a semicolon); the first requested tag that
  resolves decides, and the fallback locale is \<open>en-US\<close>.
\<close>

definition requested_tags :: "string \<Rightarrow> string list" where
  "requested_tags header =
     map (takeWhile (\<lambda>c. c \<noteq> CHR '';''))
         (split_on (CHR '','') (filter (\<lambda>c. c \<noteq> CHR '' '') header))"

definition bestLocale :: "string \<Rightarrow> string list \<Rightarrow> string" where
  "bestLocale header supported =
     (case List.map_filter (\<lambda>t. resolve_tag t supported) (requested_tags header) of
        [] \<Rightarrow> ''en-US''
      | l # _ \<Rightarrow> l)"

subsection \<open>distutils.version.LooseVersion (Python 2)\<close>

text \<open>
  The standard library splits a version string with the pattern
  \<^verbatim>\<open>(\d+ | [a-z]+ | \.)\<close>, drops the empty pieces and the dots, and turns every
  piece that \<open>int\<close> accepts into a number. So the components are the maximal runs of
  digits, of lower-case letters and of other characters, a dot ending a run. Two
  versions compare as their component lists do under Python 2's \<open>cmp\<close>: element by
  element, a number below any string, a proper prefix below its extensions.
\<close>

datatype char_class = Digit | Lower | Dot | Other

definition class_of :: "char \<Rightarrow> char_class" where
  "class_of c =
     (let n = (of_char c :: nat)
      in if 48 \<le> n \<and> n \<le> 57 then Digit
         else if 97 \<le> n \<and> n \<le> 122 then Lower
         else if c = CHR ''.'' then Dot
         else Other)"

text \<open>\<open>cur\<close> is the run being read, all of one class.\<close>

fun split_components :: "string \<Rightarrow> string \<Rightarrow> string list" where
  "split_components cur [] = (if cur = [] then [] else [cur])"
| "split_components cur (c # cs) =
     (if class_of c = Dot then
        (if cur = [] then [] else [cur]) @ split_components [] cs
      else if cur \<noteq> [] \<and> class_of (last cur) \<noteq> class_of c then
        cur # split_components [c] cs
      else split_components (cur @ [c]) cs)"

datatype component = Num nat | Str string

definition digit_value :: "char \<Rightarrow> nat" where
  "digit_value c = of_char c - 48"

definition int_of_digits :: "string \<Rightarrow> nat" where
  "int_of_digits s = foldl (\<lambda>n c. 10 * n + digit_value c) 0 s"

definition to_component :: "string \<Rightarrow> component" where
  "to_component s =
     (if s \<noteq> [] \<and> (\<forall>c \<in> set s. class_of c = Digit)
      then Num (int_of_digits s) else Str s)"

definition parse_version :: "string \<Rightarrow> component list" where
  "parse_version vstring = map to_component (split_components [] vstring)"

text \<open>Byte-wise comparison of two strings, as Python compares \<open>str\<close> values.\<close>

fun string_lt :: "string \<Rightarrow> string \<Rightarrow> bool" where
  "string_lt [] [] = False"
| "string_lt [] (y # ys) = True"
| "string_lt (x # xs) [] = False"
| "string_lt (x # xs) (y # ys) =
     (if x = y then string_lt xs ys else (of_char x :: nat) < of_char y)"

fun component_lt :: "component \<Rightarrow> component \<Rightarrow> bool" where
  "component_lt (Num a) (Num b) = (a < b)"
| "component_lt (Num a) (Str t) = True"
| "component_lt (Str s) (Num b) = False"
| "component_lt (Str s) (Str t) = string_lt s t"

fun components_lt :: "component list \<Rightarrow> component list \<Rightarrow> bool" where
  "components_lt [] [] = False"
| "components_lt [] (y # ys) = True"
| "components_lt (x # xs) [] = False"
| "components_lt (x # xs) (y # ys) =
     (if x = y then components_lt xs ys else component_lt x y)"

text \<open>
  \<^verbatim>\<open>LooseVersion(v) < LooseVersion(w)\<close>. The constructor parses its argument only
  when the string is not empty (\<^verbatim>\<open>if vstring: self.parse(vstring)\<close>); an object made
  from the empty string has no component list, and comparing it raises
  \<open>AttributeError\<close>.
\<close>

definition LooseVersion_lt :: "string \<Rightarrow> string \<Rightarrow> error + bool" where
  "LooseVersion_lt v w =
     (if v = [] \<or> w = [] then Inl AttributeError
      else Inr (components_lt (parse_version v) (parse_version w)))"

subsection \<open>getLatestTBBVersion\<close>

text \<open>
  The second loop of the function:
  \<^verbatim>\<open>for v in version_numbers:
      if LooseVersion(v) < LooseVersion(stable_version): stable_version = v\<close>
\<close>

fun stable_loop :: "string list \<Rightarrow> string \<Rightarrow> error + string" where
  "stable_loop [] stable_version = Inr stable_version"
| "stable_loop (v # vs) stable_version =
     (case LooseVersion_lt v stable_version of
        Inl e \<Rightarrow> Inl e
      | Inr smaller \<Rightarrow> stable_loop vs (if smaller then v else stable_version))"

text \<open>
  The first loop keeps the candidates without a hyphen, in order;
  \<open>version_numbers[0]\<close> raises \<open>IndexError\<close> on the empty list.
\<close>

definition getLatestTBBVersion :: "string list \<Rightarrow> error + string" where
  "getLatestTBBVersion versions =
     (let version_numbers = filter (\<lambda>v. CHR ''-'' \<notin> set v) versions
      in case version_numbers of
           [] \<Rightarrow> Inl IndexError
         | stable_version # _ \<Rightarrow> stable_loop version_numbers stable_version)"

subsection \<open>The pre-release marker in the specification's words\<close>

text \<open>
  A version contains a pre-release marker when it has a segment that is not numeric: a
  character other than the digits and the dots that separate the numbers. The hyphenated
  suffix of \<open>5.5.4-alpha\<close> is one; so are the \<open>a\<close> of \<open>6.0a5\<close> and the
  \<open>_beta\<close> of \<open>5.5.4_beta\<close>.
\<close>

definition pre_release_marker :: "string \<Rightarrow> bool" where
  "pre_release_marker v = list_ex (\<lambda>c. class_of c \<noteq> Digit \<and> class_of c \<noteq> Dot) v"

subsection \<open>processGetTorRequest: the served file names\<close>



subsection \<open>Regular expressions of Python's re module, as far as getTorTask uses them\<close>

text \<open>
  The constructs that occur in the pattern of \<open>getTorTask\<close>: literal characters, the
  dot, character classes, concatenation, alternation, the greedy \<open>?\<close> and \<open>+\<close>, and
  groups. \<open>render\<close> writes a pattern in Python's syntax.
\<close>

datatype regex =
    Lit char
  | AnyChar
  | OneOf "char list"
  | NoneOf "char list"
  | Empty
  | Seq regex regex
  | Alt regex regex
  | Opt regex
  | Plus regex
  | Group regex

fun render :: "regex \<Rightarrow> string" where
  "render (Lit c) = [c]"
| "render AnyChar = ''.''"
| "render (OneOf cs) = ''['' @ cs @ '']''"
| "render (NoneOf cs) = ''[^'' @ cs @ '']''"
| "render Empty = []"
| "render (Seq a b) = render a @ render b"
| "render (Alt a b) = render a @ ''|'' @ render b"
| "render (Opt a) = render a @ ''?''"
| "render (Plus a) = render a @ ''+''"
| "render (Group a) = ''('' @ render a @ '')''"

text \<open>
  Backtracking matching at the start of a string: \<open>rmatch r s\<close> lists what is left of
  \<open>s\<close> after each way of matching \<open>r\<close>, in the order in which the engine tries them
  (the left alternative first, the longer repetition first). The dot matches any
  character but a newline. A repetition goes on only after a step that consumed input.
\<close>

fun rmatch :: "regex \<Rightarrow> string \<Rightarrow> string list" where
  "rmatch (Lit c) s = (case s of [] \<Rightarrow> [] | x # xs \<Rightarrow> if x = c then [xs] else [])"
| "rmatch AnyChar s = (case s of [] \<Rightarrow> [] | x # xs \<Rightarrow> if x \<noteq> newline then [xs] else [])"
| "rmatch (OneOf cs) s = (case s of [] \<Rightarrow> [] | x # xs \<Rightarrow> if x \<in> set cs then [xs] else [])"
| "rmatch (NoneOf cs) s = (case s of [] \<Rightarrow> [] | x # xs \<Rightarrow> if x \<notin> set cs then [xs] else [])"
| "rmatch Empty s = [s]"
| "rmatch (Seq a b) s = concat (map (rmatch b) (rmatch a s))"
| "rmatch (Alt a b) s = rmatch a s @ rmatch b s"
| "rmatch (Opt a) s = rmatch a s @ [s]"
| "rmatch (Plus a) s =
     concat (map (\<lambda>r. (if length r < length s then rmatch (Plus a) r else []) @ [r])
                 (rmatch a s))"
| "rmatch (Group a) s = rmatch a s"

text \<open>
  A pattern is searched as a prefix \<open>pre\<close> followed by its first group \<open>grp\<close>, which
  ends the pattern. The first way of matching decides; the result is the text of the
  first group and the rest of the input.
\<close>

definition match_at :: "regex \<Rightarrow> regex \<Rightarrow> string \<Rightarrow> (string \<times> string) option" where
  "match_at pre grp s =
     (case concat (map (\<lambda>r1. map (\<lambda>r2. (r1, r2)) (rmatch grp r1)) (rmatch pre s)) of
        [] \<Rightarrow> None
      | (r1, r2) # _ \<Rightarrow> Some (take (length r1 - length r2) r1, r2))"

text \<open>
  \<open>[x[0] for x in re.findall(pattern, page)]\<close>: the matches from left to right without
  overlap, each giving the text of its first group; the search goes on where the last
  match ended, or one character further when nothing was consumed.
\<close>

fun findall :: "regex \<Rightarrow> regex \<Rightarrow> string \<Rightarrow> string list" where
  "findall pre grp [] = (case match_at pre grp [] of None \<Rightarrow> [] | Some (g, rest) \<Rightarrow> [g])"
| "findall pre grp (c # cs) =
     (case match_at pre grp (c # cs) of
        None \<Rightarrow> findall pre grp cs
      | Some (g, rest) \<Rightarrow>
          g # (if length rest < length (c # cs) then findall pre grp rest
               else findall pre grp cs))"

subsection \<open>getTorTask: the pattern for the file names\<close>

text \<open>
  The loop that builds \<open>filenames_regexp\<close>, with its counter \<open>i\<close>:
  \<^verbatim>\<open>if i: filenames_regexp += '|'
  filenames_regexp += "(%s.exe)|(%s.exe.asc)|(%s.dmg)|(%s.dmg.asc)" % (lang, ...)\<close>
\<close>

fun filenames_loop :: "string list \<Rightarrow> nat \<Rightarrow> string \<Rightarrow> string" where
  "filenames_loop [] i filenames_regexp = filenames_regexp"
| "filenames_loop (lang # rest) i filenames_regexp =
     filenames_loop rest (i + 1)
       ((if i \<noteq> 0 then filenames_regexp @ ''|'' else filenames_regexp)
         @ ''('' @ lang @ ''.exe)|('' @ lang @ ''.exe.asc)|(''
         @ lang @ ''.dmg)|('' @ lang @ ''.dmg.asc)'')"

text \<open>\<^verbatim>\<open>url_regexp = 'href=[\'"]?([^\'" >]+(%s))' % filenames_regexp\<close>\<close>

definition url_regexp :: "string list \<Rightarrow> string" where
  "url_regexp locales =
     ''href=['' @ [apostrophe, dquote] @ '']?([^'' @ [apostrophe, dquote] @ '' >]+(''
       @ filenames_loop locales 0 [] @ ''))''"

text \<open>
  The source pastes each locale into the pattern as it is. A locale code made of
  letters, digits, \<open>-\<close> and \<open>_\<close> stands for itself in a pattern; any other string
  may change the syntax of the pattern (\<open>x|y\<close> adds alternatives, \<open>a(b\<close> does not
  compile) and is outside what is modelled here.
\<close>

definition locale_char :: "char \<Rightarrow> bool" where
  "locale_char c =
     (let n = (of_char c :: nat)
      in (48 \<le> n \<and> n \<le> 57) \<or> (65 \<le> n \<and> n \<le> 90) \<or> (97 \<le> n \<and> n \<le> 122)
         \<or> c = CHR ''-'' \<or> c = CHR ''_'')"

definition locale_code :: "string \<Rightarrow> bool" where
  "locale_code lang = list_all locale_char lang"

text \<open>
  The pattern as a \<open>regex\<close>, built by the same loop, for a list of locale codes:
  each code is a sequence of literal characters.
\<close>

fun lits :: "string \<Rightarrow> regex" where
  "lits [] = Empty"
| "lits (c # cs) = Seq (Lit c) (lits cs)"

definition lang_alternatives :: "string \<Rightarrow> regex" where
  "lang_alternatives lang =
     Alt (Group (Seq (lits lang) (Seq AnyChar (lits ''exe''))))
    (Alt (Group (Seq (lits lang)
                  (Seq AnyChar (Seq (lits ''exe'') (Seq AnyChar (lits ''asc''))))))
    (Alt (Group (Seq (lits lang) (Seq AnyChar (lits ''dmg''))))
         (Group (Seq (lits lang)
                  (Seq AnyChar (Seq (lits ''dmg'') (Seq AnyChar (lits ''asc''))))))))"

fun filenames_pattern_loop :: "string list \<Rightarrow> nat \<Rightarrow> regex \<Rightarrow> regex" where
  "filenames_pattern_loop [] i r = r"
| "filenames_pattern_loop (lang # rest) i r =
     filenames_pattern_loop rest (i + 1)
       (if i \<noteq> 0 then Alt r (lang_alternatives lang) else Seq r (lang_alternatives lang))"

definition link_prefix :: regex where
  "link_prefix = Seq (lits ''href='') (Opt (OneOf [apostrophe, dquote]))"

definition link_group :: "string list \<Rightarrow> regex" where
  "link_group locales =
     Seq (Plus (NoneOf [apostrophe, dquote, CHR '' '', CHR ''>'']))
         (Group (filenames_pattern_loop locales 0 Empty))"

definition url_pattern :: "string list \<Rightarrow> regex" where
  "url_pattern locales = Seq link_prefix (Group (link_group locales))"

text \<open>
  \<open>extractLinks\<close> of \<open>getTBBFilenames\<close>, for the pattern of a list of locale codes:
  \<^verbatim>\<open>set(tuple(x[0] for x in re.findall(urls_regexp, page)))\<close>. The set is a list
  without duplicates, in the order of the first occurrences.
\<close>

definition extractLinks :: "string list \<Rightarrow> string \<Rightarrow> string list" where
  "extractLinks locales page = remdups (findall link_prefix (link_group locales) page)"

text \<open>
  A link \<open>href="f"\<close>; the pattern selects the name \<open>f\<close> when the link, taken alone,
  is extracted under this name. \<open>no_href s\<close>: no link starts inside \<open>s\<close>, also when
  \<open>href\<close> follows it.
\<close>

definition link_to :: "string \<Rightarrow> string" where
  "link_to f = ''href='' @ [dquote] @ f @ [dquote]"






subsection \<open>getTorTask: the file system and the outside world\<close>

text \<open>
  The three places the task touches: the directories \<open>torbrowser/temp\<close> and
  \<open>torbrowser/latest\<close> (absent, or their entries: files with their contents and
  subdirectories) and the file \<open>lists/latest_torbrowser.txt\<close>.
\<close>

datatype node = File string | Folder "(string \<times> node) list"

type_synonym directory = "(string \<times> node) list"

record filesystem =
  temp_path :: "directory option"
  latest_path :: "directory option"
  latest_tb_file :: "string option"

text \<open>
  What the task receives from outside in one run: the decoded answer of the version
  request, the locale list in its iteration order, the pages of the mirror by URL, the
  answer of \<open>re.findall\<close> for a pattern that is outside the modelled syntax (pattern and
  page give an error or the texts of the first group), what a \<open>rmtree\<close> whose errors
  are ignored leaves of a directory (\<open>None\<close> when it removes it), the bytes each
  download writes and the error that ends it, and the errors of the system calls that
  can raise.
\<close>

record world =
  recommended_versions :: "error + string list"
  gettor_locales :: "error + string list"
  getPage :: "string \<Rightarrow> error + string"
  findall_other :: "string \<Rightarrow> string \<Rightarrow> error + string list"
  rmtree_temp_left :: "directory \<Rightarrow> directory option"
  mkdir_error :: "error option"
  open_error :: "string \<Rightarrow> error option"
  downloadPage :: "string \<Rightarrow> string \<times> error option"
  rmtree_latest_left :: "directory \<Rightarrow> directory option"
  move_error :: "error option"
  write_error :: "error option"

text \<open>
  The file system calls of the task, and the history of a run: every call that returned
  without raising, with the file system after it.
\<close>

datatype operation =
    Rmtree_temp
  | Mkdir_temp
  | Open_w string
  | DownloadPage string
  | Rmtree_latest
  | Move_temp_latest
  | Write_version string

type_synonym history = "(operation \<times> filesystem) list"

type_synonym run = "filesystem \<times> history"

definition perform :: "operation \<Rightarrow> (filesystem \<Rightarrow> filesystem) \<Rightarrow> run \<Rightarrow> run" where
  "perform op f r = (f (fst r), snd r @ [(op, f (fst r))])"

text \<open>
  \<open>shutil.rmtree(path, True)\<close>: nothing happens when the path does not exist; else the
  tree is removed, or, when a removal fails, the error is ignored and the directory
  stays with what is left in it.
\<close>

definition rmtree :: "(directory \<Rightarrow> directory option) \<Rightarrow> directory option \<Rightarrow> directory option" where
  "rmtree left path = (case path of None \<Rightarrow> None | Some d \<Rightarrow> left d)"

text \<open>
  \<open>shutil.move(temp_path, latest_path)\<close>: when the destination does not exist the
  source is renamed to it; when the destination is a directory the source is moved into
  it, under its own name \<open>temp\<close>, and the call raises when that name exists there.
\<close>

definition move_temp_latest :: "filesystem \<Rightarrow> error + filesystem" where
  "move_temp_latest fs =
     (case temp_path fs of
        None \<Rightarrow> Inl IOError
      | Some t \<Rightarrow>
          (case latest_path fs of
             None \<Rightarrow> Inr (fs\<lparr>latest_path := Some t, temp_path := None\<rparr>)
           | Some d \<Rightarrow>
               if ''temp'' \<in> fst ` set d then Inl OSError
               else Inr (fs\<lparr>latest_path := Some (d @ [(''temp'', Folder t)]),
                           temp_path := None\<rparr>)))"

fun write_file :: "string \<Rightarrow> string \<Rightarrow> directory \<Rightarrow> directory" where
  "write_file f data [] = [(f, File data)]"
| "write_file f data ((g, d) # rest) =
     (if g = f then (f, File data) # rest else (g, d) # write_file f data rest)"

definition write_temp :: "string \<Rightarrow> string \<Rightarrow> filesystem \<Rightarrow> filesystem" where
  "write_temp f data fs = fs\<lparr>temp_path := map_option (write_file f data) (temp_path fs)\<rparr>"

definition dist_tpo :: string where
  "dist_tpo = ''https://dist.torproject.org/torbrowser/''"

definition mirror_url :: "string \<Rightarrow> string" where
  "mirror_url latest_version = dist_tpo @ latest_version @ ''/''"

definition file_url :: "string \<Rightarrow> string \<Rightarrow> string" where
  "file_url latest_version f = dist_tpo @ latest_version @ ''/'' @ f"

subsection \<open>getTorTask\<close>

text \<open>
  The first part of the \<open>try\<close> block, which only reads: the latest version, the
  version in \<open>latest_torbrowser.txt\<close> (without newlines), and when they differ the
  locales and the file names on the mirror. For a list of locale codes the names are
  those of \<open>extractLinks\<close>; for other locale strings they are what the outside world
  says \<open>re.findall\<close> gives for the pattern string. The result is an error, \<open>None\<close>
  when nothing is to be done, or the version with the files to fetch.
\<close>

definition getTorTask_enumerate ::
  "world \<Rightarrow> filesystem \<Rightarrow> error + (string \<times> string list) option" where
  "getTorTask_enumerate w fs =
     (case recommended_versions w of
        Inl e \<Rightarrow> Inl e
      | Inr versions \<Rightarrow>
     (case getLatestTBBVersion versions of
        Inl e \<Rightarrow> Inl e
      | Inr latest_version \<Rightarrow>
     (case latest_tb_file fs of
        None \<Rightarrow> Inl IOError
      | Some content \<Rightarrow>
          if remove_char newline content \<noteq> latest_version then
            (case gettor_locales w of
               Inl e \<Rightarrow> Inl e
             | Inr locales \<Rightarrow>
            (case getPage w (mirror_url latest_version) of
               Inl e \<Rightarrow> Inl e
             | Inr page \<Rightarrow>
                 if list_all locale_code locales then
                   Inr (Some (latest_version, extractLinks locales page))
                 else
                   (case findall_other w (url_regexp locales) page of
                      Inl e \<Rightarrow> Inl e
                    | Inr links \<Rightarrow> Inr (Some (latest_version, remdups links)))))
          else Inr None)))"

text \<open>
  The download loop: \<open>FilePath(temp_path).child(f).open('w')\<close> creates the empty file,
  \<open>downloadPage\<close> writes into it and may fail after part of the data.
\<close>

fun download_loop :: "world \<Rightarrow> string \<Rightarrow> string list \<Rightarrow> run \<Rightarrow> error option \<times> run" where
  "download_loop w latest_version [] r = (None, r)"
| "download_loop w latest_version (f # files) r =
     (case open_error w f of
        Some e \<Rightarrow> (Some e, r)
      | None \<Rightarrow>
          (let r1 = perform (Open_w f) (write_temp f []) r;
               (data, failure) = downloadPage w (file_url latest_version f);
               r2 = perform (DownloadPage f) (write_temp f data) r1
           in case failure of
                Some e \<Rightarrow> (Some e, r2)
              | None \<Rightarrow> download_loop w latest_version files r2))"

text \<open>
  The second part of the \<open>try\<close> block, in the order of the source:
  \<open>rmtree(temp_path, True)\<close>, \<open>mkdir(temp_path)\<close>, which raises when the directory
  is still there, the downloads, \<open>rmtree(latest_path, True)\<close>,
  \<open>move(temp_path, latest_path)\<close>, and the write of the version file. The first
  component of the result is the exception that ended the block, if any.
\<close>

definition getTorTask_replace ::
  "world \<Rightarrow> string \<Rightarrow> string list \<Rightarrow> run \<Rightarrow> error option \<times> run" where
  "getTorTask_replace w latest_version files r =
     (let r1 = perform Rmtree_temp
                 (\<lambda>fs. fs\<lparr>temp_path := rmtree (rmtree_temp_left w) (temp_path fs)\<rparr>) r
      in if temp_path (fst r1) \<noteq> None then (Some OSError, r1)
         else case mkdir_error w of
           Some e \<Rightarrow> (Some e, r1)
         | None \<Rightarrow>
     (let r2 = perform Mkdir_temp (\<lambda>fs. fs\<lparr>temp_path := Some []\<rparr>) r1
      in case download_loop w latest_version files r2 of
           (Some e, r3) \<Rightarrow> (Some e, r3)
         | (None, r3) \<Rightarrow>
     (let r4 = perform Rmtree_latest
                 (\<lambda>fs. fs\<lparr>latest_path := rmtree (rmtree_latest_left w) (latest_path fs)\<rparr>) r3
      in case move_temp_latest (fst r4) of
           Inl e \<Rightarrow> (Some e, r4)
         | Inr moved \<Rightarrow>
     (case move_error w of
           Some e \<Rightarrow> (Some e, r4)
         | None \<Rightarrow>
     (let r5 = perform Move_temp_latest (\<lambda>fs. moved) r4
      in case write_error w of
           Some e \<Rightarrow> (Some e, r5)
         | None \<Rightarrow>
             (None, perform (Write_version latest_version)
                      (\<lambda>fs. fs\<lparr>latest_tb_file := Some latest_version\<rparr>) r5))))))"

definition getTorTask_try :: "world \<Rightarrow> filesystem \<Rightarrow> error option \<times> run" where
  "getTorTask_try w fs =
     (case getTorTask_enumerate w fs of
        Inl e \<Rightarrow> (Some e, (fs, []))
      | Inr None \<Rightarrow> (None, (fs, []))
      | Inr (Some (latest_version, files)) \<Rightarrow>
          getTorTask_replace w latest_version files (fs, []))"

text \<open>
  The task: the \<open>try\<close> block with \<open>except Exception: pass\<close>. The first component is
  the exception that leaves the task.
\<close>

definition getTorTask :: "world \<Rightarrow> filesystem \<Rightarrow> error option \<times> run" where
  "getTorTask w fs =
     (case getTorTask_try w fs of
        (Some e, r) \<Rightarrow> (None, r)
      | (None, r) \<Rightarrow> (None, r))"

text \<open>The operations of a history, and the live directory after each of them.\<close>

definition operations :: "history \<Rightarrow> operation list" where
  "operations h = map fst h"

definition live_history :: "history \<Rightarrow> (operation \<times> directory option) list" where
  "live_history h = map (\<lambda>(op, fs). (op, latest_path fs)) h"

text \<open>
  The complete new release: every enumerated file with all the bytes of its download.
\<close>

definition new_release :: "world \<Rightarrow> string \<Rightarrow> string list \<Rightarrow> directory" where
  "new_release w latest_version files =
     map (\<lambda>f. (f, File (fst (downloadPage w (file_url latest_version f))))) files"

subsection \<open>A mirror with one installer, for the examples\<close>

definition example_page :: string where
  "example_page =
     ''<a href='' @ [dquote] @ ''torbrowser-install-5.5.4_en-US.exe'' @ [dquote] @ ''>''"

text \<open>
  In the example world every call succeeds; in particular both \<open>rmtree\<close> calls remove
  their directory.
\<close>

definition example_world :: world where
  "example_world =
     \<lparr> recommended_versions = Inr [''5.5.4'', ''5.5.5-alpha''],
       gettor_locales = Inr [''en-US''],
       getPage = (\<lambda>url. if url = ''https://dist.torproject.org/torbrowser/5.5.4/''
                          then Inr example_page else Inl NetworkError),
       findall_other = (\<lambda>pattern page. Inl ValueError),
       rmtree_temp_left = (\<lambda>d. None),
       mkdir_error = None,
       open_error = (\<lambda>f. None),
       downloadPage = (\<lambda>url. (''MZ'', None)),
       rmtree_latest_left = (\<lambda>d. None),
       move_error = None,
       write_error = None \<rparr>"

definition example_fs :: filesystem where
  "example_fs =
     \<lparr> temp_path = None,
       latest_path = Some [(''torbrowser-install-5.5.3_en-US.exe'', File ''old'')],
       latest_tb_file = Some ''5.5.3'' \<rparr>"

definition failing_download :: "string \<Rightarrow> string \<times> error option" where
  "failing_download url = (''M'', Some NetworkError)"

text \<open>A \<open>rmtree\<close> that fails on everything and leaves the directory as it is.\<close>

definition failing_rmtree :: "directory \<Rightarrow> directory option" where
  "failing_rmtree d = Some d"

subsection \<open>Predicates for the proofs about a run\<close>

text \<open>
  A stretch of history that only opens and fills files of the staging directory, and a
  file system whose live directory and version file are those of \<open>fs\<close>.
\<close>

definition staging_only :: "filesystem \<Rightarrow> history \<Rightarrow> bool" where
  "staging_only fs h =
     (\<forall>(op, s) \<in> set h. (\<exists>f. op = Open_w f \<or> op = DownloadPage f)
        \<and> latest_path s = latest_path fs \<and> latest_tb_file s = latest_tb_file fs)"

definition unchanged :: "filesystem \<Rightarrow> filesystem \<Rightarrow> bool" where
  "unchanged fs s = (latest_path s = latest_path fs \<and> latest_tb_file s = latest_tb_file fs)"

section \<open>Properties of getBestLangMatch\<close>

lemma split_on_not_Nil: "split_on c s \<noteq> []"
  by (induction s) (auto split: list.splits)

lemma hd_split_on: "hd (split_on c s) = takeWhile (\<lambda>x. x \<noteq> c) s"
  using split_on_not_Nil[of c] by (induction s) (auto split: list.splits)

lemma takeWhile_absent: "c \<notin> set s \<Longrightarrow> takeWhile (\<lambda>x. x \<noteq> c) s = s"
  by (induction s) auto

lemma language_only_primary: "language_only lc = primary_subtag lc"
  by (simp add: language_only_def primary_subtag_def hd_split_on takeWhile_absent)

lemma parse_accept_language_tags: "parse_accept_language h = requested_tags h"
  by (simp add: parse_accept_language_def requested_tags_def hd_split_on remove_char_def)

lemma exact_loop_find: "exact_loop lc ls = find (same_tag lc) ls"
  by (induction ls) (simp_all add: same_tag_def)

lemma language_loop_find:
  "language_loop lc ls = find (\<lambda>l. same_tag lc (primary_subtag l)) ls"
  by (induction ls) (simp_all add: same_tag_def language_only_primary)

lemma requested_loop_rule:
  "requested_loop ts supported =
     (case List.map_filter (\<lambda>t. resolve_tag t supported) ts of
        [] \<Rightarrow> ''en-US'' | l # _ \<Rightarrow> l)"
  by (induction ts)
     (simp_all add: map_filter_simps resolve_tag_def exact_loop_find language_loop_find
        language_only_primary split: option.splits)

text \<open>
  C9: for every accept-language header and every list of supported locales,
  \<open>getBestLangMatch\<close> computes the resolution rule of the specification: the requested
  tags in order, and for each an exact case-insensitive match, else its primary subtag
  as an exact match, else a supported tag with that primary subtag, else the fallback.
  The header \<open>es-PT,en;q=0.8\<close> against \<open>es-ES\<close>, \<open>en-US\<close> gives \<open>es-ES\<close>.
\<close>

theorem getBestLangMatch_rule:
  "getBestLangMatch accept_language supported = bestLocale accept_language supported
   \<and> getBestLangMatch ''es-PT,en;q=0.8'' [''es-ES'', ''en-US''] = ''es-ES''"
proof
  show "getBestLangMatch accept_language supported = bestLocale accept_language supported"
    by (simp add: getBestLangMatch_def bestLocale_def requested_loop_rule
        parse_accept_language_tags)
  show "getBestLangMatch ''es-PT,en;q=0.8'' [''es-ES'', ''en-US''] = ''es-ES''"
    by code_simp
qed

lemma exact_loop_mem: "exact_loop lc ls = Some l \<Longrightarrow> l \<in> set ls"
  by (induction ls) (auto split: if_splits)

lemma language_loop_mem: "language_loop lc ls = Some l \<Longrightarrow> l \<in> set ls"
  by (induction ls) (auto split: if_splits)

lemma exact_loop_None: "\<forall>l\<in>set ls. lower lc \<noteq> lower l \<Longrightarrow> exact_loop lc ls = None"
  by (induction ls) auto

lemma language_loop_None:
  "\<forall>l\<in>set ls. lower lc \<noteq> lower (language_only l) \<Longrightarrow> language_loop lc ls = None"
  by (induction ls) auto

lemma requested_loop_range:
  "requested_loop ts supported \<in> set supported \<or> requested_loop ts supported = ''en-US''"
  by (induction ts)
     (auto simp: Let_def split: option.splits dest: exact_loop_mem language_loop_mem)

lemma requested_loop_fallback:
  "\<forall>lc\<in>set ts. \<forall>l\<in>set supported.
      lower lc \<noteq> lower l \<and> lower (language_only lc) \<noteq> lower l
      \<and> lower (language_only lc) \<noteq> lower (language_only l)
   \<Longrightarrow> requested_loop ts supported = ''en-US''"
  by (induction ts) (simp_all add: exact_loop_None language_loop_None)

text \<open>
  C10: the result of \<open>getBestLangMatch\<close> is an element of the supported list or the
  literal \<open>en-US\<close>; when no requested tag matches in any of the three passes the result
  is \<open>en-US\<close>, whether or not the supported list contains it.
\<close>

theorem getBestLangMatch_last_resort:
  "(getBestLangMatch accept_language supported \<in> set supported
      \<or> getBestLangMatch accept_language supported = ''en-US'')
   \<and> ((\<forall>lc\<in>set (parse_accept_language accept_language). \<forall>l\<in>set supported.
          lower lc \<noteq> lower l \<and> lower (language_only lc) \<noteq> lower l
          \<and> lower (language_only lc) \<noteq> lower (language_only l))
        \<longrightarrow> getBestLangMatch accept_language supported = ''en-US'')"
  unfolding getBestLangMatch_def
  using requested_loop_range requested_loop_fallback by blast

theorem getBestLangMatch_last_resort_witness:
  "getBestLangMatch ''fr,it-IT'' [''de'', ''es-ES''] = ''en-US''
   \<and> ''en-US'' \<notin> set [''de'', ''es-ES'']"
proof -
  have h: "\<forall>lc\<in>set (parse_accept_language ''fr,it-IT''). \<forall>l\<in>set [''de'', ''es-ES''].
          lower lc \<noteq> lower l \<and> lower (language_only lc) \<noteq> lower l
          \<and> lower (language_only lc) \<noteq> lower (language_only l)"
    by code_simp
  from getBestLangMatch_last_resort[of "''fr,it-IT''" "[''de'', ''es-ES'']"] h
  show ?thesis by simp
qed

section \<open>Properties of getLatestTBBVersion\<close>

lemma stable_loop_mem: "stable_loop vs s = Inr r \<Longrightarrow> r \<in> insert s (set vs)"
  by (induction vs arbitrary: s) (auto split: sum.splits if_splits)

lemma stable_loop_error: "stable_loop vs s = Inl e \<Longrightarrow> e = AttributeError"
  by (induction vs arbitrary: s) (auto simp: LooseVersion_lt_def split: sum.splits if_splits)

text \<open>
  The version order is a strict total order on the parsed versions, so the selection
  loop ends with a least candidate: no hyphen-free candidate is below the result.
\<close>

lemma of_char_nat_neq:
  "x \<noteq> y \<Longrightarrow> (of_char x :: nat) < of_char y \<or> (of_char y :: nat) < of_char x"
  by (simp add: neq_iff[symmetric])

lemma string_lt_trans: "string_lt a b \<Longrightarrow> string_lt b c \<Longrightarrow> string_lt a c"
proof (induction a b arbitrary: c rule: string_lt.induct)
  case (2 y ys)
  then show ?case by (cases c) auto
next
  case (4 x xs y ys)
  then show ?case by (cases c) (auto split: if_splits)
qed auto

lemma string_lt_total: "a \<noteq> b \<Longrightarrow> string_lt a b \<or> string_lt b a"
  by (induction a b rule: string_lt.induct) (auto dest: of_char_nat_neq)

lemma string_lt_irrefl: "\<not> string_lt a a"
  by (induction a) auto

lemma component_lt_trans: "component_lt a b \<Longrightarrow> component_lt b c \<Longrightarrow> component_lt a c"
  by (cases a; cases b; cases c) (auto intro: string_lt_trans)

lemma component_lt_total: "a \<noteq> b \<Longrightarrow> component_lt a b \<or> component_lt b a"
  by (cases a; cases b) (auto dest: string_lt_total)

lemma component_lt_irrefl: "\<not> component_lt a a"
  by (cases a) (auto simp: string_lt_irrefl)

lemma component_lt_asym: "component_lt a b \<Longrightarrow> \<not> component_lt b a"
  using component_lt_trans component_lt_irrefl by blast

lemma components_lt_irrefl: "\<not> components_lt a a"
  by (induction a) auto

lemma components_lt_trans:
  "components_lt a b \<Longrightarrow> components_lt b c \<Longrightarrow> components_lt a c"
proof (induction a b arbitrary: c rule: components_lt.induct)
  case (2 y ys)
  then show ?case by (cases c) auto
next
  case (4 x xs y ys)
  then show ?case
    by (cases c) (auto split: if_splits intro: component_lt_trans dest: component_lt_asym)
qed auto

lemma components_lt_total: "a \<noteq> b \<Longrightarrow> components_lt a b \<or> components_lt b a"
  by (induction a b rule: components_lt.induct) (auto dest: component_lt_total)

lemma components_lt_cotrans:
  assumes "components_lt a c"
  shows "components_lt a b \<or> components_lt b c"
proof (cases "a = b")
  case True
  with assms show ?thesis by simp
next
  case False
  from components_lt_total[OF this] assms show ?thesis
    by (blast intro: components_lt_trans)
qed

lemma stable_loop_least:
  "stable_loop vs s = Inr r \<Longrightarrow>
   \<forall>u\<in>insert s (set vs). \<not> components_lt (parse_version u) (parse_version r)"
proof (induction vs arbitrary: s)
  case Nil
  then show ?case by (simp add: components_lt_irrefl)
next
  case (Cons v vs)
  from Cons.prems obtain b where b: "LooseVersion_lt v s = Inr b"
    and rec: "stable_loop vs (if b then v else s) = Inr r"
    by (auto split: sum.splits)
  from b have bdef: "b = components_lt (parse_version v) (parse_version s)"
    by (auto simp: LooseVersion_lt_def split: if_splits)
  let ?s = "if b then v else s"
  from Cons.IH[OF rec]
  have ih: "\<forall>u\<in>insert ?s (set vs). \<not> components_lt (parse_version u) (parse_version r)" .
  then have s': "\<not> components_lt (parse_version ?s) (parse_version r)" by blast
  have "\<not> components_lt (parse_version v) (parse_version r)
      \<and> \<not> components_lt (parse_version s) (parse_version r)"
  proof (cases b)
    case True
    with s' have nv: "\<not> components_lt (parse_version v) (parse_version r)" by simp
    have "\<not> components_lt (parse_version s) (parse_version r)"
    proof
      assume "components_lt (parse_version s) (parse_version r)"
      with True bdef have "components_lt (parse_version v) (parse_version r)"
        by (blast intro: components_lt_trans)
      with nv show False by contradiction
    qed
    with nv show ?thesis by blast
  next
    case False
    with s' have ns: "\<not> components_lt (parse_version s) (parse_version r)" by simp
    with False bdef components_lt_cotrans[of "parse_version v" "parse_version r" "parse_version s"]
    have "\<not> components_lt (parse_version v) (parse_version r)" by blast
    with ns show ?thesis by blast
  qed
  with ih show ?case by auto
qed

lemma getLatestTBBVersion_least:
  assumes "getLatestTBBVersion versions = Inr r"
  shows "r \<in> set versions
     \<and> (\<forall>u\<in>set versions. CHR ''-'' \<notin> set u \<longrightarrow> LooseVersion_lt u r \<noteq> Inr True)"
proof -
  let ?vn = "filter (\<lambda>v. CHR ''-'' \<notin> set v) versions"
  from assms obtain s rest where vn: "?vn = s # rest" and r: "stable_loop ?vn s = Inr r"
    by (auto simp: getLatestTBBVersion_def Let_def split: list.splits)
  have s: "s \<in> set ?vn" using vn by simp
  from stable_loop_mem[OF r] s have "r \<in> set versions" by auto
  moreover from stable_loop_least[OF r]
  have "\<forall>u\<in>set ?vn. \<not> components_lt (parse_version u) (parse_version r)" by simp
  then have "\<forall>u\<in>set ?vn. LooseVersion_lt u r \<noteq> Inr True"
    by (auto simp: LooseVersion_lt_def)
  ultimately show ?thesis by simp
qed

text \<open>
  C1: on the candidates \<open>5.5.3\<close>, \<open>5.5.4\<close>, both without a hyphen,
  \<open>getLatestTBBVersion\<close> returns \<open>5.5.3\<close>, which is below \<open>5.5.4\<close> in the version
  ordering: the loop keeps the smaller version, not the maximum.
\<close>

theorem getLatestTBBVersion_returns_oldest:
  "getLatestTBBVersion [''5.5.3'', ''5.5.4''] = Inr ''5.5.3''
   \<and> LooseVersion_lt ''5.5.3'' ''5.5.4'' = Inr True"
  by code_simp

text \<open>
  C5, as stated, fails. The candidates \<open>6.0a5\<close> and \<open>5.5.4_beta\<close> each carry a
  pre-release marker, a segment that is neither a number nor a dot, and each is returned
  when it is the only candidate: the filter of the function looks for a hyphen and for
  nothing else.
\<close>

theorem getLatestTBBVersion_returns_alpha:
  "getLatestTBBVersion [''6.0a5''] = Inr ''6.0a5'' \<and> pre_release_marker ''6.0a5''
   \<and> getLatestTBBVersion [''5.5.4_beta''] = Inr ''5.5.4_beta''
   \<and> pre_release_marker ''5.5.4_beta''"
  by code_simp

text \<open>
  C5, amended: whatever the candidates, a version returned by \<open>getLatestTBBVersion\<close>
  contains no hyphen. The hyphen is the only pre-release marker the function filters.
\<close>

theorem getLatestTBBVersion_no_hyphen:
  "getLatestTBBVersion versions = Inr v \<Longrightarrow> CHR ''-'' \<notin> set v"
proof -
  assume a: "getLatestTBBVersion versions = Inr v"
  let ?vn = "filter (\<lambda>v. CHR ''-'' \<notin> set v) versions"
  from a obtain s rest where vn: "?vn = s # rest" and v: "stable_loop ?vn s = Inr v"
    by (auto simp: getLatestTBBVersion_def Let_def split: list.splits)
  have "s \<in> set ?vn" using vn by simp
  moreover have "v \<in> insert s (set ?vn)" using v by (rule stable_loop_mem)
  ultimately have "v \<in> set ?vn" by auto
  then show ?thesis by simp
qed

theorem getLatestTBBVersion_no_hyphen_witness:
  "getLatestTBBVersion [''5.5.4-alpha'', ''6.0a5'', ''6.5''] = Inr ''6.0a5''
   \<and> CHR ''-'' \<notin> set ''6.0a5''"
proof -
  have h: "getLatestTBBVersion [''5.5.4-alpha'', ''6.0a5'', ''6.5''] = Inr ''6.0a5''"
    by code_simp
  from getLatestTBBVersion_no_hyphen[OF h] h show ?thesis by simp
qed

text \<open>
  C6, as stated, fails. Both candidates of the list \<open>6.0a5\<close>, \<open>6.0a5-MacOS\<close> carry
  a pre-release marker, and the function returns \<open>6.0a5\<close> instead of failing.
\<close>

theorem getLatestTBBVersion_all_alpha:
  "pre_release_marker ''6.0a5'' \<and> pre_release_marker ''6.0a5-MacOS''
   \<and> getLatestTBBVersion [''6.0a5'', ''6.0a5-MacOS''] = Inr ''6.0a5''"
  by code_simp

text \<open>
  C6, amended: the function fails with \<open>IndexError\<close>, raised by
  \<open>version_numbers[0]\<close>, exactly when the candidate list is empty or every candidate
  contains a hyphen.
\<close>

theorem getLatestTBBVersion_none_stable:
  "(getLatestTBBVersion versions = Inl IndexError) = (\<forall>v\<in>set versions. CHR ''-'' \<in> set v)"
proof
  assume a: "getLatestTBBVersion versions = Inl IndexError"
  have "filter (\<lambda>v. CHR ''-'' \<notin> set v) versions = []"
  proof (rule ccontr)
    assume "filter (\<lambda>v. CHR ''-'' \<notin> set v) versions \<noteq> []"
    then obtain s rest where "filter (\<lambda>v. CHR ''-'' \<notin> set v) versions = s # rest"
      by (cases "filter (\<lambda>v. CHR ''-'' \<notin> set v) versions") auto
    with a have "stable_loop (s # rest) s = Inl IndexError"
      by (simp add: getLatestTBBVersion_def)
    from stable_loop_error[OF this] show False by simp
  qed
  then show "\<forall>v\<in>set versions. CHR ''-'' \<in> set v"
    by (simp add: filter_empty_conv)
next
  assume "\<forall>v\<in>set versions. CHR ''-'' \<in> set v"
  then have "filter (\<lambda>v. CHR ''-'' \<notin> set v) versions = []"
    by (simp add: filter_empty_conv)
  then show "getLatestTBBVersion versions = Inl IndexError"
    by (simp add: getLatestTBBVersion_def)
qed

theorem getLatestTBBVersion_none_stable_witness:
  "getLatestTBBVersion [''5.5.4-alpha'', ''6.0a5-MacOS''] = Inl IndexError
   \<and> getLatestTBBVersion [] = Inl IndexError
   \<and> getLatestTBBVersion [''5.5.4-alpha'', ''5.5.3''] \<noteq> Inl IndexError"
proof -
  have h: "\<forall>v\<in>set [''5.5.4-alpha'', ''6.0a5-MacOS'']. CHR ''-'' \<in> set v" by simp
  have e: "\<forall>v\<in>set ([] :: string list). CHR ''-'' \<in> set v" by simp
  have n: "\<not> (\<forall>v\<in>set [''5.5.4-alpha'', ''5.5.3'']. CHR ''-'' \<in> set v)" by simp
  from getLatestTBBVersion_none_stable[of "[''5.5.4-alpha'', ''6.0a5-MacOS'']"]
       getLatestTBBVersion_none_stable[of "[]"]
       getLatestTBBVersion_none_stable[of "[''5.5.4-alpha'', ''5.5.3'']"] h e n
  show ?thesis by blast
qed

section \<open>The file name pattern of getTorTask\<close>

text \<open>The pattern as a \<open>regex\<close> is the string that the source builds.\<close>

lemma render_lits: "render (lits s) = s"
  by (induction s) auto

lemma render_lang_alternatives:
  "render (lang_alternatives lang) =
     ''('' @ lang @ ''.exe)|('' @ lang @ ''.exe.asc)|('' @ lang @ ''.dmg)|('' @ lang @ ''.dmg.asc)''"
  by (simp add: lang_alternatives_def render_lits)

lemma render_filenames_pattern_loop:
  "render (filenames_pattern_loop locales i r) = filenames_loop locales i (render r)"
  by (induction locales arbitrary: i r) (simp_all add: render_lang_alternatives)

lemma render_url_pattern: "render (url_pattern locales) = url_regexp locales"
  by (simp add: url_pattern_def url_regexp_def link_prefix_def link_group_def
      render_filenames_pattern_loop)

declare rmatch.simps(9) [simp del]




lemma rmatch_lits_iff: "r \<in> set (rmatch (lits t) s) \<longleftrightarrow> s = t @ r"
  by (induction t arbitrary: s) (auto split: list.splits)


lemma rmatch_Seq_iff:
  "r \<in> set (rmatch (Seq a b) s) \<longleftrightarrow> (\<exists>m. m \<in> set (rmatch a s) \<and> r \<in> set (rmatch b m))"
  by auto















lemma rmatch_link_prefix_href:
  "rmatch link_prefix s \<noteq> [] \<Longrightarrow> take 5 s = ''href=''"
proof -
  assume "rmatch link_prefix s \<noteq> []"
  then obtain r where "r \<in> set (rmatch link_prefix s)" by (cases "rmatch link_prefix s") auto
  then obtain m where "s = ''href='' @ m"
    unfolding link_prefix_def rmatch_Seq_iff rmatch_lits_iff by blast
  then show ?thesis by simp
qed




lemma match_at_no_href:
  "take 5 s \<noteq> ''href='' \<Longrightarrow> match_at link_prefix grp s = None"
proof -
  assume "take 5 s \<noteq> ''href=''"
  with rmatch_link_prefix_href[of s] have "rmatch link_prefix s = []" by blast
  then show ?thesis by (simp add: match_at_def)
qed




lemma findall_quote: "findall link_prefix grp [dquote] = []"
  by (simp add: match_at_no_href dquote_def)














text \<open>
  C4: with an empty locale list the loop adds nothing, the inner group of the pattern is
  empty and matches the empty string, so every link of the page is extracted. On the
  example mirror the task then downloads the installer and publishes it: the pattern
  does not match nothing, and the cycle does not download zero files.
\<close>

theorem extractLinks_no_locales:
  "url_regexp [] = ''href=['' @ [apostrophe, dquote] @ '']?([^'' @ [apostrophe, dquote] @ '' >]+())''
   \<and> extractLinks [] example_page = [''torbrowser-install-5.5.4_en-US.exe'']
   \<and> extractLinks [] (link_to ''sha256sums.txt'') = [''sha256sums.txt'']
   \<and> operations (snd (snd (getTorTask (example_world\<lparr>gettor_locales := Inr []\<rparr>) example_fs)))
       = [Rmtree_temp, Mkdir_temp, Open_w ''torbrowser-install-5.5.4_en-US.exe'',
          DownloadPage ''torbrowser-install-5.5.4_en-US.exe'',
          Rmtree_latest, Move_temp_latest, Write_version ''5.5.4'']"
proof (intro conjI)
  show "url_regexp [] = ''href=['' @ [apostrophe, dquote] @ '']?([^'' @ [apostrophe, dquote] @ '' >]+())''"
    by (simp add: url_regexp_def)
  show "extractLinks [] example_page = [''torbrowser-install-5.5.4_en-US.exe'']"
    by code_simp
  show "extractLinks [] (link_to ''sha256sums.txt'') = [''sha256sums.txt'']"
    by code_simp
  show "operations (snd (snd (getTorTask (example_world\<lparr>gettor_locales := Inr []\<rparr>) example_fs)))
       = [Rmtree_temp, Mkdir_temp, Open_w ''torbrowser-install-5.5.4_en-US.exe'',
          DownloadPage ''torbrowser-install-5.5.4_en-US.exe'',
          Rmtree_latest, Move_temp_latest, Write_version ''5.5.4'']"
    by code_simp
qed

section \<open>The runs of getTorTask\<close>

text \<open>The history of a run, call by call.\<close>

lemma perform_fst: "fst (perform op f r) = f (fst r)"
  by (simp add: perform_def)

lemma perform_snd: "snd (perform op f r) = snd r @ [(op, f (fst r))]"
  by (simp add: perform_def)

lemma write_temp_keeps:
  "latest_path (write_temp f d fs) = latest_path fs"
  "latest_tb_file (write_temp f d fs) = latest_tb_file fs"
  by (simp_all add: write_temp_def)

lemma staging_only_Nil: "staging_only fs []"
  by (simp add: staging_only_def)

lemma staging_only_append:
  "staging_only fs (a @ b) = (staging_only fs a \<and> staging_only fs b)"
  by (auto simp: staging_only_def)

lemma staging_only_same:
  "latest_path fs' = latest_path fs \<Longrightarrow> latest_tb_file fs' = latest_tb_file fs \<Longrightarrow>
   staging_only fs' h = staging_only fs h"
  by (simp add: staging_only_def)

lemma download_loop_history:
  "download_loop w v files r = (out, r') \<Longrightarrow>
   \<exists>h. snd r' = snd r @ h \<and> staging_only (fst r) h
       \<and> latest_path (fst r') = latest_path (fst r)
       \<and> latest_tb_file (fst r') = latest_tb_file (fst r)"
proof (induction files arbitrary: r)
  case Nil
  then show ?case by (auto simp: staging_only_Nil)
next
  case (Cons f files)
  show ?case
  proof (cases "open_error w f")
    case (Some e)
    with Cons.prems show ?thesis by (auto simp: staging_only_Nil)
  next
    case None
    obtain data failure where dl: "downloadPage w (file_url v f) = (data, failure)"
      by (cases "downloadPage w (file_url v f)")
    let ?r1 = "perform (Open_w f) (write_temp f []) r"
    let ?r2 = "perform (DownloadPage f) (write_temp f data) ?r1"
    have h2: "snd ?r2 = snd r @ [(Open_w f, fst ?r1), (DownloadPage f, fst ?r2)]"
      by (simp add: perform_def)
    have k2: "latest_path (fst ?r2) = latest_path (fst r)"
         "latest_tb_file (fst ?r2) = latest_tb_file (fst r)"
         "latest_path (fst ?r1) = latest_path (fst r)"
         "latest_tb_file (fst ?r1) = latest_tb_file (fst r)"
      by (simp_all add: perform_def write_temp_keeps)
    have s2: "staging_only (fst r) [(Open_w f, fst ?r1), (DownloadPage f, fst ?r2)]"
      using k2 by (simp add: staging_only_def)
    show ?thesis
    proof (cases failure)
      case (Some e)
      with Cons.prems None dl have "r' = ?r2" by (simp add: Let_def)
      with h2 k2 s2 show ?thesis by blast
    next
      case fNone: None
      with Cons.prems None dl have "download_loop w v files ?r2 = (out, r')"
        by (simp add: Let_def)
      from Cons.IH[OF this] obtain h where
        h: "snd r' = snd ?r2 @ h" "staging_only (fst ?r2) h"
           "latest_path (fst r') = latest_path (fst ?r2)"
           "latest_tb_file (fst r') = latest_tb_file (fst ?r2)" by blast
      have "staging_only (fst r) h"
        using h(2) staging_only_same[OF k2(1) k2(2)] by simp
      with s2 have "staging_only (fst r)
          ([(Open_w f, fst ?r1), (DownloadPage f, fst ?r2)] @ h)"
        by (simp only: staging_only_append)
      moreover have "snd r' = snd r @ ([(Open_w f, fst ?r1), (DownloadPage f, fst ?r2)] @ h)"
        using h(1) h2 by simp
      ultimately show ?thesis using h(3,4) k2 by metis
    qed
  qed
qed

lemma write_file_new:
  "f \<notin> fst ` set d \<Longrightarrow> write_file f data d = d @ [(f, File data)]"
  by (induction d) auto

lemma write_file_last:
  "f \<notin> fst ` set d \<Longrightarrow> write_file f data (d @ [(f, x)]) = d @ [(f, File data)]"
  by (induction d) auto

lemma download_loop_temp:
  "download_loop w v files r = (None, r') \<Longrightarrow> temp_path (fst r) = Some d \<Longrightarrow>
   distinct files \<Longrightarrow> set files \<inter> fst ` set d = {} \<Longrightarrow>
   temp_path (fst r') = Some (d @ new_release w v files)"
proof (induction files arbitrary: r d)
  case Nil
  then show ?case by (simp add: new_release_def)
next
  case (Cons f files)
  from Cons.prems(1) have oe: "open_error w f = None"
    by (auto split: option.splits)
  obtain data failure where dl: "downloadPage w (file_url v f) = (data, failure)"
    by (cases "downloadPage w (file_url v f)")
  let ?r1 = "perform (Open_w f) (write_temp f []) r"
  let ?r2 = "perform (DownloadPage f) (write_temp f data) ?r1"
  from Cons.prems(1) oe dl have fl: "failure = None"
    by (auto simp: Let_def split: option.splits)
  with Cons.prems(1) oe dl have rec: "download_loop w v files ?r2 = (None, r')"
    by (simp add: Let_def)
  have fd: "f \<notin> fst ` set d" using Cons.prems(4) by auto
  have t2: "temp_path (fst ?r2) = Some (d @ [(f, File data)])"
    using Cons.prems(2) fd
    by (simp add: perform_def write_temp_def write_file_new write_file_last)
  have "set files \<inter> fst ` set (d @ [(f, File data)]) = {}"
    using Cons.prems(3,4) by auto
  from Cons.IH[OF rec t2 _ this] Cons.prems(3)
  have "temp_path (fst r') = Some ((d @ [(f, File data)]) @ new_release w v files)" by simp
  then show ?case using dl by (simp add: new_release_def)
qed

lemma move_temp_latest_Inr:
  assumes "move_temp_latest s = Inr m" and "temp_path s = Some t"
  shows "latest_path m = Some (case latest_path s of None \<Rightarrow> t | Some d \<Rightarrow> d @ [(''temp'', Folder t)])"
    and "latest_tb_file m = latest_tb_file s"
  using assms by (auto simp: move_temp_latest_def split: option.splits if_splits)

text \<open>
  The five ways a run of the replacement ends, with the states after its calls: the
  staging directory cannot be made, a download fails, the move fails, the write of the
  version file fails, or everything succeeds.
\<close>

lemma getTorTask_replace_cases:
  assumes "distinct files"
  obtains
    (mkdir_failed) e s1 where
      "getTorTask_replace w v files (fs, []) = (Some e, s1, [(Rmtree_temp, s1)])"
      "unchanged fs s1"
  | (download_failed) e s1 s2 s3 hs where
      "getTorTask_replace w v files (fs, [])
         = (Some e, s3, (Rmtree_temp, s1) # (Mkdir_temp, s2) # hs)"
      "unchanged fs s1" "unchanged fs s2" "unchanged fs s3" "staging_only fs hs"
  | (move_failed) e s1 s2 s4 hs where
      "getTorTask_replace w v files (fs, [])
         = (Some e, s4, (Rmtree_temp, s1) # (Mkdir_temp, s2) # hs @ [(Rmtree_latest, s4)])"
      "unchanged fs s1" "unchanged fs s2" "staging_only fs hs"
      "latest_path s4 = rmtree (rmtree_latest_left w) (latest_path fs)"
      "latest_tb_file s4 = latest_tb_file fs"
  | (write_failed) e s1 s2 s4 s5 hs where
      "move_error w = None"
      "getTorTask_replace w v files (fs, [])
         = (Some e, s5, (Rmtree_temp, s1) # (Mkdir_temp, s2) # hs
              @ [(Rmtree_latest, s4), (Move_temp_latest, s5)])"
      "unchanged fs s1" "unchanged fs s2" "staging_only fs hs"
      "latest_path s4 = rmtree (rmtree_latest_left w) (latest_path fs)"
      "latest_tb_file s4 = latest_tb_file fs"
      "latest_path s5 = Some (case rmtree (rmtree_latest_left w) (latest_path fs) of
                                None \<Rightarrow> new_release w v files
                              | Some left \<Rightarrow> left @ [(''temp'', Folder (new_release w v files))])"
      "latest_tb_file s5 = latest_tb_file fs"
  | (completed) s1 s2 s4 s5 s6 hs where
      "move_error w = None"
      "getTorTask_replace w v files (fs, [])
         = (None, s6, (Rmtree_temp, s1) # (Mkdir_temp, s2) # hs
              @ [(Rmtree_latest, s4), (Move_temp_latest, s5), (Write_version v, s6)])"
      "unchanged fs s1" "unchanged fs s2" "staging_only fs hs"
      "latest_path s4 = rmtree (rmtree_latest_left w) (latest_path fs)"
      "latest_tb_file s4 = latest_tb_file fs"
      "latest_path s5 = Some (case rmtree (rmtree_latest_left w) (latest_path fs) of
                                None \<Rightarrow> new_release w v files
                              | Some left \<Rightarrow> left @ [(''temp'', Folder (new_release w v files))])"
      "latest_tb_file s5 = latest_tb_file fs"
      "latest_path s6 = latest_path s5" "latest_tb_file s6 = Some v"
proof -
  let ?r1 = "perform Rmtree_temp
               (\<lambda>fs. fs\<lparr>temp_path := rmtree (rmtree_temp_left w) (temp_path fs)\<rparr>) (fs, [])"
  let ?r2 = "perform Mkdir_temp (\<lambda>fs. fs\<lparr>temp_path := Some []\<rparr>) ?r1"
  have u1: "unchanged fs (fst ?r1)" and u2: "unchanged fs (fst ?r2)"
    by (simp_all add: unchanged_def perform_def)
  have h1: "snd ?r1 = [(Rmtree_temp, fst ?r1)]"
    by (simp add: perform_def)
  have h2: "snd ?r2 = [(Rmtree_temp, fst ?r1), (Mkdir_temp, fst ?r2)]"
    by (simp add: perform_def)
  have t2: "temp_path (fst ?r2) = Some []"
    by (simp add: perform_def)
  show ?thesis
  proof (cases "temp_path (fst ?r1) \<noteq> None \<or> mkdir_error w \<noteq> None")
    case True
    have "\<exists>e. getTorTask_replace w v files (fs, []) = (Some e, ?r1)"
    proof (cases "temp_path (fst ?r1) \<noteq> None")
      case True
      then have "getTorTask_replace w v files (fs, []) = (Some OSError, ?r1)"
        by (simp add: getTorTask_replace_def Let_def)
      then show ?thesis by blast
    next
      case nt: False
      with True obtain e where "mkdir_error w = Some e" by auto
      with nt have "getTorTask_replace w v files (fs, []) = (Some e, ?r1)"
        by (simp add: getTorTask_replace_def Let_def)
      then show ?thesis by blast
    qed
    then obtain e where "getTorTask_replace w v files (fs, []) = (Some e, ?r1)" by blast
    then have "getTorTask_replace w v files (fs, []) = (Some e, fst ?r1, [(Rmtree_temp, fst ?r1)])"
      using h1 by (metis prod.collapse)
    then show ?thesis using u1 by (rule mkdir_failed)
  next
    case False
    then have mk: "temp_path (fst ?r1) = None" "mkdir_error w = None" by simp_all
    obtain out r3 where dl: "download_loop w v files ?r2 = (out, r3)"
      by (cases "download_loop w v files ?r2")
    from download_loop_history[OF dl] obtain hs where
      hs: "snd r3 = snd ?r2 @ hs" "staging_only (fst ?r2) hs"
          "latest_path (fst r3) = latest_path (fst ?r2)"
          "latest_tb_file (fst r3) = latest_tb_file (fst ?r2)" by blast
    have shs: "staging_only fs hs"
      using hs(2) u2 staging_only_same[of "fst ?r2" fs hs] by (simp add: unchanged_def)
    have u3: "unchanged fs (fst r3)"
      using hs(3,4) u2 by (simp add: unchanged_def)
    have h3: "snd r3 = (Rmtree_temp, fst ?r1) # (Mkdir_temp, fst ?r2) # hs"
      using hs(1) h2 by simp
    show ?thesis
    proof (cases out)
      case (Some e)
      with mk dl have "getTorTask_replace w v files (fs, []) = (Some e, r3)"
        by (simp add: getTorTask_replace_def Let_def)
      then have "getTorTask_replace w v files (fs, [])
         = (Some e, fst r3, (Rmtree_temp, fst ?r1) # (Mkdir_temp, fst ?r2) # hs)"
        using h3 by (metis prod.collapse)
      then show ?thesis using u1 u2 u3 shs by (rule download_failed)
    next
      case oNone: None
      from download_loop_temp[OF dl[unfolded oNone] t2 assms]
      have t3: "temp_path (fst r3) = Some (new_release w v files)" by simp
      let ?r4 = "perform Rmtree_latest
                   (\<lambda>fs. fs\<lparr>latest_path := rmtree (rmtree_latest_left w) (latest_path fs)\<rparr>) r3"
      have p4: "latest_path (fst ?r4) = rmtree (rmtree_latest_left w) (latest_path fs)"
               "latest_tb_file (fst ?r4) = latest_tb_file fs"
        using u3 by (simp_all add: perform_def unchanged_def)
      have t4: "temp_path (fst ?r4) = Some (new_release w v files)"
        using t3 by (simp add: perform_def)
      have h4: "snd ?r4 = (Rmtree_temp, fst ?r1) # (Mkdir_temp, fst ?r2) # hs
                  @ [(Rmtree_latest, fst ?r4)]"
        using h3 by (simp add: perform_def)
      have rep: "getTorTask_replace w v files (fs, []) =
          (case move_temp_latest (fst ?r4) of
             Inl e \<Rightarrow> (Some e, ?r4)
           | Inr moved \<Rightarrow>
               (case move_error w of
                  Some e \<Rightarrow> (Some e, ?r4)
                | None \<Rightarrow>
                    (let r5 = perform Move_temp_latest (\<lambda>fs. moved) ?r4
                     in case write_error w of
                          Some e \<Rightarrow> (Some e, r5)
                        | None \<Rightarrow>
                            (None, perform (Write_version v)
                                     (\<lambda>fs. fs\<lparr>latest_tb_file := Some v\<rparr>) r5))))"
        using mk dl oNone by (simp add: getTorTask_replace_def Let_def)
      show ?thesis
      proof (cases "\<exists>moved. move_temp_latest (fst ?r4) = Inr moved \<and> move_error w = None")
        case False
        then obtain e where "getTorTask_replace w v files (fs, []) = (Some e, ?r4)"
          unfolding rep
          by (cases "move_temp_latest (fst ?r4)"; cases "move_error w") auto
        then have "getTorTask_replace w v files (fs, [])
           = (Some e, fst ?r4, (Rmtree_temp, fst ?r1) # (Mkdir_temp, fst ?r2) # hs
                @ [(Rmtree_latest, fst ?r4)])"
          using h4 by (metis prod.collapse)
        then show ?thesis using u1 u2 shs p4 by (rule move_failed)
      next
        case True
        then obtain moved where mv: "move_temp_latest (fst ?r4) = Inr moved"
          and me: "move_error w = None" by blast
        let ?r5 = "perform Move_temp_latest (\<lambda>fs. moved) ?r4"
        let ?r6 = "perform (Write_version v) (\<lambda>fs. fs\<lparr>latest_tb_file := Some v\<rparr>) ?r5"
        from move_temp_latest_Inr[OF mv t4] p4
        have lm: "latest_path moved = Some (case rmtree (rmtree_latest_left w) (latest_path fs) of
                                None \<Rightarrow> new_release w v files
                              | Some left \<Rightarrow> left @ [(''temp'', Folder (new_release w v files))])"
          and tm: "latest_tb_file moved = latest_tb_file fs" by simp_all
        have p5: "latest_path (fst ?r5) = Some (case rmtree (rmtree_latest_left w) (latest_path fs) of
                                None \<Rightarrow> new_release w v files
                              | Some left \<Rightarrow> left @ [(''temp'', Folder (new_release w v files))])"
                 "latest_tb_file (fst ?r5) = latest_tb_file fs"
          using lm tm by (simp_all add: perform_def)
        have p6: "latest_path (fst ?r6) = latest_path (fst ?r5)"
                 "latest_tb_file (fst ?r6) = Some v"
          by (simp_all add: perform_def)
        have h5: "snd ?r5 = (Rmtree_temp, fst ?r1) # (Mkdir_temp, fst ?r2) # hs
                    @ [(Rmtree_latest, fst ?r4), (Move_temp_latest, fst ?r5)]"
          using h3 by (simp add: perform_def)
        have h6: "snd ?r6 = (Rmtree_temp, fst ?r1) # (Mkdir_temp, fst ?r2) # hs
                    @ [(Rmtree_latest, fst ?r4), (Move_temp_latest, fst ?r5),
                       (Write_version v, fst ?r6)]"
          using h3 by (simp add: perform_def)
        show ?thesis
        proof (cases "write_error w")
          case (Some e)
          with mv me have "getTorTask_replace w v files (fs, []) = (Some e, ?r5)"
            unfolding rep by (simp add: Let_def)
          then have "getTorTask_replace w v files (fs, [])
             = (Some e, fst ?r5, (Rmtree_temp, fst ?r1) # (Mkdir_temp, fst ?r2) # hs
                  @ [(Rmtree_latest, fst ?r4), (Move_temp_latest, fst ?r5)])"
            using h5 by (metis prod.collapse)
          with me show ?thesis using u1 u2 shs p4 p5 by (rule write_failed)
        next
          case None
          with mv me have "getTorTask_replace w v files (fs, []) = (None, ?r6)"
            unfolding rep by (simp add: Let_def)
          then have "getTorTask_replace w v files (fs, [])
             = (None, fst ?r6, (Rmtree_temp, fst ?r1) # (Mkdir_temp, fst ?r2) # hs
                  @ [(Rmtree_latest, fst ?r4), (Move_temp_latest, fst ?r5),
                     (Write_version v, fst ?r6)])"
            using h6 by (metis prod.collapse)
          with me show ?thesis using u1 u2 shs p4 p5 p6 by (rule completed)
        qed
      qed
    qed
  qed
qed

lemma getTorTask_run: "snd (getTorTask w fs) = snd (getTorTask_try w fs)"
  by (cases "getTorTask_try w fs") (auto simp: getTorTask_def split: option.splits)

lemma extractLinks_distinct: "distinct (extractLinks locales page)"
  by (simp add: extractLinks_def)

lemma getTorTask_enumerate_distinct:
  "getTorTask_enumerate w fs = Inr (Some (v, files)) \<Longrightarrow> distinct files"
  by (auto simp: getTorTask_enumerate_def extractLinks_distinct
           split: sum.splits option.splits if_splits)

lemma getTorTask_try_replace:
  "getTorTask_enumerate w fs = Inr (Some (v, files)) \<Longrightarrow>
   getTorTask_try w fs = getTorTask_replace w v files (fs, [])"
  by (simp add: getTorTask_try_def)

lemma staging_only_mem:
  "staging_only fs hs \<Longrightarrow> (op, s) \<in> set hs \<Longrightarrow>
   (\<exists>f. op = Open_w f \<or> op = DownloadPage f) \<and> latest_path s = latest_path fs
   \<and> latest_tb_file s = latest_tb_file fs"
  by (auto simp: staging_only_def)



text \<open>
  C2, as stated, fails. In the run on the example mirror the live directory is removed
  by \<open>rmtree(latest_path, True)\<close> and only the next call, \<open>move\<close>, puts the new
  release in its place: after the first of the two calls the live directory is absent,
  which is neither the previous release nor the new one. And in the run where the
  removal fails, which \<open>rmtree\<close> does not report, \<open>move\<close> finds the directory
  and puts the staging directory inside it: the live directory then holds the file of
  the previous release beside a folder \<open>temp\<close> with the new one.
\<close>

theorem getTorTask_live_directory_absent:
  "live_history (snd (snd (getTorTask example_world example_fs))) =
     [(Rmtree_temp, Some [(''torbrowser-install-5.5.3_en-US.exe'', File ''old'')]),
      (Mkdir_temp, Some [(''torbrowser-install-5.5.3_en-US.exe'', File ''old'')]),
      (Open_w ''torbrowser-install-5.5.4_en-US.exe'',
         Some [(''torbrowser-install-5.5.3_en-US.exe'', File ''old'')]),
      (DownloadPage ''torbrowser-install-5.5.4_en-US.exe'',
         Some [(''torbrowser-install-5.5.3_en-US.exe'', File ''old'')]),
      (Rmtree_latest, None),
      (Move_temp_latest, Some [(''torbrowser-install-5.5.4_en-US.exe'', File ''MZ'')]),
      (Write_version ''5.5.4'', Some [(''torbrowser-install-5.5.4_en-US.exe'', File ''MZ'')])]
   \<and> live_history (snd (snd (getTorTask
         (example_world\<lparr>rmtree_latest_left := failing_rmtree\<rparr>) example_fs))) =
     [(Rmtree_temp, Some [(''torbrowser-install-5.5.3_en-US.exe'', File ''old'')]),
      (Mkdir_temp, Some [(''torbrowser-install-5.5.3_en-US.exe'', File ''old'')]),
      (Open_w ''torbrowser-install-5.5.4_en-US.exe'',
         Some [(''torbrowser-install-5.5.3_en-US.exe'', File ''old'')]),
      (DownloadPage ''torbrowser-install-5.5.4_en-US.exe'',
         Some [(''torbrowser-install-5.5.3_en-US.exe'', File ''old'')]),
      (Rmtree_latest, Some [(''torbrowser-install-5.5.3_en-US.exe'', File ''old'')]),
      (Move_temp_latest,
         Some [(''torbrowser-install-5.5.3_en-US.exe'', File ''old''),
               (''temp'', Folder [(''torbrowser-install-5.5.4_en-US.exe'', File ''MZ'')])]),
      (Write_version ''5.5.4'',
         Some [(''torbrowser-install-5.5.3_en-US.exe'', File ''old''),
               (''temp'', Folder [(''torbrowser-install-5.5.4_en-US.exe'', File ''MZ'')])])]"
proof
  show "live_history (snd (snd (getTorTask example_world example_fs))) =
     [(Rmtree_temp, Some [(''torbrowser-install-5.5.3_en-US.exe'', File ''old'')]),
      (Mkdir_temp, Some [(''torbrowser-install-5.5.3_en-US.exe'', File ''old'')]),
      (Open_w ''torbrowser-install-5.5.4_en-US.exe'',
         Some [(''torbrowser-install-5.5.3_en-US.exe'', File ''old'')]),
      (DownloadPage ''torbrowser-install-5.5.4_en-US.exe'',
         Some [(''torbrowser-install-5.5.3_en-US.exe'', File ''old'')]),
      (Rmtree_latest, None),
      (Move_temp_latest, Some [(''torbrowser-install-5.5.4_en-US.exe'', File ''MZ'')]),
      (Write_version ''5.5.4'', Some [(''torbrowser-install-5.5.4_en-US.exe'', File ''MZ'')])]"
    by code_simp
  show "live_history (snd (snd (getTorTask
         (example_world\<lparr>rmtree_latest_left := failing_rmtree\<rparr>) example_fs))) =
     [(Rmtree_temp, Some [(''torbrowser-install-5.5.3_en-US.exe'', File ''old'')]),
      (Mkdir_temp, Some [(''torbrowser-install-5.5.3_en-US.exe'', File ''old'')]),
      (Open_w ''torbrowser-install-5.5.4_en-US.exe'',
         Some [(''torbrowser-install-5.5.3_en-US.exe'', File ''old'')]),
      (DownloadPage ''torbrowser-install-5.5.4_en-US.exe'',
         Some [(''torbrowser-install-5.5.3_en-US.exe'', File ''old'')]),
      (Rmtree_latest, Some [(''torbrowser-install-5.5.3_en-US.exe'', File ''old'')]),
      (Move_temp_latest,
         Some [(''torbrowser-install-5.5.3_en-US.exe'', File ''old''),
               (''temp'', Folder [(''torbrowser-install-5.5.4_en-US.exe'', File ''MZ'')])]),
      (Write_version ''5.5.4'',
         Some [(''torbrowser-install-5.5.3_en-US.exe'', File ''old''),
               (''temp'', Folder [(''torbrowser-install-5.5.4_en-US.exe'', File ''MZ'')])])]"
    by code_simp
qed

text \<open>
  C2, amended: the live directory is replaced by two file system calls, a removal
  whose errors are ignored and then a move. After each file system call of a run the
  live directory is the previous release, up to the removal; what the removal left of
  it, after \<open>rmtree(latest_path, True)\<close>, which is nothing when the removal
  succeeded; and after the move the complete new release, every enumerated file with
  all its downloaded bytes, in the place of the live directory when the removal left
  nothing, and otherwise in a folder \<open>temp\<close> beside what the removal left.
\<close>

theorem getTorTask_live_directory:
  "(op, s) \<in> set (snd (snd (getTorTask w fs))) \<Longrightarrow>
   (case op of
      Rmtree_latest \<Rightarrow> latest_path s = rmtree (rmtree_latest_left w) (latest_path fs)
    | Move_temp_latest \<Rightarrow>
        (\<exists>v files. getTorTask_enumerate w fs = Inr (Some (v, files))
           \<and> latest_path s =
               Some (case rmtree (rmtree_latest_left w) (latest_path fs) of
                       None \<Rightarrow> new_release w v files
                     | Some left \<Rightarrow> left @ [(''temp'', Folder (new_release w v files))]))
    | Write_version u \<Rightarrow>
        (\<exists>v files. getTorTask_enumerate w fs = Inr (Some (v, files))
           \<and> latest_path s =
               Some (case rmtree (rmtree_latest_left w) (latest_path fs) of
                       None \<Rightarrow> new_release w v files
                     | Some left \<Rightarrow> left @ [(''temp'', Folder (new_release w v files))]))
    | _ \<Rightarrow> latest_path s = latest_path fs)"
proof -
  assume mem: "(op, s) \<in> set (snd (snd (getTorTask w fs)))"
  show ?thesis
  proof (cases "\<exists>v files. getTorTask_enumerate w fs = Inr (Some (v, files))")
    case False
    then have "snd (getTorTask_try w fs) = (fs, [])"
      by (auto simp: getTorTask_try_def split: sum.splits option.splits)
    with mem show ?thesis by (simp add: getTorTask_run)
  next
    case True
    then obtain v files where en: "getTorTask_enumerate w fs = Inr (Some (v, files))"
      by blast
    have d: "distinct files" using en by (rule getTorTask_enumerate_distinct)
    have run: "snd (getTorTask w fs) = snd (getTorTask_replace w v files (fs, []))"
      using en by (simp add: getTorTask_run getTorTask_try_replace)
    from d show ?thesis
    proof (cases rule: getTorTask_replace_cases[where w = w and v = v and fs = fs])
      case (mkdir_failed e s1)
      with mem run show ?thesis by (auto simp: unchanged_def)
    next
      case (download_failed e s1 s2 s3 hs)
      with mem run show ?thesis
        by (auto simp: unchanged_def dest: staging_only_mem)
    next
      case (move_failed e s1 s2 s4 hs)
      with mem run show ?thesis
        by (auto simp: unchanged_def dest: staging_only_mem)
    next
      case (write_failed e s1 s2 s4 s5 hs)
      with mem run en show ?thesis
        by (auto simp: unchanged_def dest: staging_only_mem)
    next
      case (completed s1 s2 s4 s5 s6 hs)
      with mem run en show ?thesis
        by (auto simp: unchanged_def dest: staging_only_mem)
    qed
  qed
qed

theorem getTorTask_live_directory_witness:
  "(Move_temp_latest,
      \<lparr>temp_path = None,
       latest_path = Some [(''torbrowser-install-5.5.4_en-US.exe'', File ''MZ'')],
       latest_tb_file = Some ''5.5.3''\<rparr>)
     \<in> set (snd (snd (getTorTask example_world example_fs)))
   \<and> Some [(''torbrowser-install-5.5.4_en-US.exe'', File ''MZ'')]
       = Some (new_release example_world ''5.5.4'' [''torbrowser-install-5.5.4_en-US.exe''])
   \<and> (Move_temp_latest,
      \<lparr>temp_path = None,
       latest_path = Some [(''torbrowser-install-5.5.3_en-US.exe'', File ''old''),
         (''temp'', Folder [(''torbrowser-install-5.5.4_en-US.exe'', File ''MZ'')])],
       latest_tb_file = Some ''5.5.3''\<rparr>)
     \<in> set (snd (snd (getTorTask
           (example_world\<lparr>rmtree_latest_left := failing_rmtree\<rparr>) example_fs)))
   \<and> Some [(''torbrowser-install-5.5.3_en-US.exe'', File ''old''),
         (''temp'', Folder [(''torbrowser-install-5.5.4_en-US.exe'', File ''MZ'')])]
       = Some ([(''torbrowser-install-5.5.3_en-US.exe'', File ''old'')]
           @ [(''temp'', Folder (new_release (example_world\<lparr>rmtree_latest_left := failing_rmtree\<rparr>)
                ''5.5.4'' [''torbrowser-install-5.5.4_en-US.exe'']))])"
proof -
  let ?w = "example_world\<lparr>rmtree_latest_left := failing_rmtree\<rparr>"
  have m: "(Move_temp_latest,
      \<lparr>temp_path = None,
       latest_path = Some [(''torbrowser-install-5.5.4_en-US.exe'', File ''MZ'')],
       latest_tb_file = Some ''5.5.3''\<rparr>)
     \<in> set (snd (snd (getTorTask example_world example_fs)))"
    by code_simp
  have en: "getTorTask_enumerate example_world example_fs
      = Inr (Some (''5.5.4'', [''torbrowser-install-5.5.4_en-US.exe'']))"
    by code_simp
  have l: "rmtree (rmtree_latest_left example_world) (latest_path example_fs) = None"
    by code_simp
  have m': "(Move_temp_latest,
      \<lparr>temp_path = None,
       latest_path = Some [(''torbrowser-install-5.5.3_en-US.exe'', File ''old''),
         (''temp'', Folder [(''torbrowser-install-5.5.4_en-US.exe'', File ''MZ'')])],
       latest_tb_file = Some ''5.5.3''\<rparr>)
     \<in> set (snd (snd (getTorTask ?w example_fs)))"
    by code_simp
  have en': "getTorTask_enumerate ?w example_fs
      = Inr (Some (''5.5.4'', [''torbrowser-install-5.5.4_en-US.exe'']))"
    by code_simp
  have l': "rmtree (rmtree_latest_left ?w) (latest_path example_fs)
      = Some [(''torbrowser-install-5.5.3_en-US.exe'', File ''old'')]"
    by code_simp
  from getTorTask_live_directory[OF m] en l
  have a: "Some [(''torbrowser-install-5.5.4_en-US.exe'', File ''MZ'')]
       = Some (new_release example_world ''5.5.4'' [''torbrowser-install-5.5.4_en-US.exe''])"
    by simp
  from getTorTask_live_directory[OF m'] en' l'
  have b: "Some [(''torbrowser-install-5.5.3_en-US.exe'', File ''old''),
         (''temp'', Folder [(''torbrowser-install-5.5.4_en-US.exe'', File ''MZ'')])]
       = Some ([(''torbrowser-install-5.5.3_en-US.exe'', File ''old'')]
           @ [(''temp'', Folder (new_release ?w ''5.5.4'' [''torbrowser-install-5.5.4_en-US.exe'']))])"
    by simp
  from m a m' b show ?thesis by blast
qed



text \<open>
  C8: no exception leaves the task, whatever fails in the \<open>try\<close> block; and when the
  block fails before the publish step, that is before \<open>rmtree(latest_path)\<close>, the live
  directory and the version file are what they were.
\<close>

theorem getTorTask_catches:
  "fst (getTorTask w fs) = None
   \<and> (fst (getTorTask_try w fs) = Some e
        \<and> Rmtree_latest \<notin> set (operations (snd (snd (getTorTask w fs))))
      \<longrightarrow> latest_path (fst (snd (getTorTask w fs))) = latest_path fs
          \<and> latest_tb_file (fst (snd (getTorTask w fs))) = latest_tb_file fs)"
proof
  show "fst (getTorTask w fs) = None"
    by (cases "getTorTask_try w fs") (auto simp: getTorTask_def split: option.splits)
  show "fst (getTorTask_try w fs) = Some e
        \<and> Rmtree_latest \<notin> set (operations (snd (snd (getTorTask w fs))))
      \<longrightarrow> latest_path (fst (snd (getTorTask w fs))) = latest_path fs
          \<and> latest_tb_file (fst (snd (getTorTask w fs))) = latest_tb_file fs"
  proof (cases "\<exists>v files. getTorTask_enumerate w fs = Inr (Some (v, files))")
    case False
    then have "snd (getTorTask_try w fs) = (fs, [])"
      by (auto simp: getTorTask_try_def split: sum.splits option.splits)
    then show ?thesis by (simp add: getTorTask_run)
  next
    case True
    then obtain v files where en: "getTorTask_enumerate w fs = Inr (Some (v, files))"
      by blast
    have d: "distinct files" using en by (rule getTorTask_enumerate_distinct)
    have run: "snd (getTorTask w fs) = snd (getTorTask_replace w v files (fs, []))"
      using en by (simp add: getTorTask_run getTorTask_try_replace)
    from d show ?thesis
    proof (cases rule: getTorTask_replace_cases[where w = w and v = v and fs = fs])
      case (mkdir_failed e s1)
      with run show ?thesis by (simp add: unchanged_def)
    next
      case (download_failed e s1 s2 s3 hs)
      with run show ?thesis by (simp add: unchanged_def)
    next
      case (move_failed e s1 s2 s4 hs)
      with run show ?thesis by (simp add: operations_def)
    next
      case (write_failed e s1 s2 s4 s5 hs)
      with run show ?thesis by (simp add: operations_def)
    next
      case (completed s1 s2 s4 s5 s6 hs)
      with run show ?thesis by (simp add: operations_def)
    qed
  qed
qed

theorem getTorTask_catches_witness:
  "fst (getTorTask (example_world\<lparr>downloadPage := failing_download\<rparr>) example_fs) = None
   \<and> fst (getTorTask_try (example_world\<lparr>downloadPage := failing_download\<rparr>) example_fs)
       = Some NetworkError
   \<and> Rmtree_latest \<notin> set (operations (snd (snd
         (getTorTask (example_world\<lparr>downloadPage := failing_download\<rparr>) example_fs))))
   \<and> latest_path (fst (snd
         (getTorTask (example_world\<lparr>downloadPage := failing_download\<rparr>) example_fs)))
       = Some [(''torbrowser-install-5.5.3_en-US.exe'', File ''old'')]
   \<and> latest_tb_file (fst (snd
         (getTorTask (example_world\<lparr>downloadPage := failing_download\<rparr>) example_fs)))
       = Some ''5.5.3''"
proof -
  let ?w = "example_world\<lparr>downloadPage := failing_download\<rparr>"
  have a: "fst (getTorTask_try ?w example_fs) = Some NetworkError" by code_simp
  have b: "Rmtree_latest \<notin> set (operations (snd (snd (getTorTask ?w example_fs))))"
    by code_simp
  have f: "latest_path example_fs = Some [(''torbrowser-install-5.5.3_en-US.exe'', File ''old'')]"
          "latest_tb_file example_fs = Some ''5.5.3''"
    by (simp_all add: example_fs_def)
  from getTorTask_catches[of ?w example_fs NetworkError] a b f show ?thesis by simp
qed

end
